theory Spec2Isabelle
  imports Main
begin

section \<open>The placeholder icon generator (create_icons.py)\<close>

text \<open>
  The script is a straight line of calls into an imaging library: for each entry of a
  hardcoded list of sizes it allocates a transparent RGBA canvas, draws one ellipse on it
  and saves it under a name built from the size; then it opens the file
  \<open>128x128.png\<close> from the working directory, saves it again as \<open>128x128@2x.png\<close>,
  and prints one line.

  The model threads an explicit state through these calls: the working directory (a map
  from file names to images), the text written to standard output, and the list of
  library calls made so far, in order. A file is represented by the image it decodes to
  (PNG is lossless). The failures that are modelled are the library refusing a canvas size
  or a bounding box, and opening a file that does not exist; an unwritable directory and
  running out of memory are not.
\<close>

subsection \<open>Images and the drawing primitive\<close>

type_synonym rgba = "int \<times> int \<times> int \<times> int"

type_synonym box = "int \<times> int \<times> int \<times> int"

type_synonym raster = "int \<times> int \<Rightarrow> rgba"

record pil_image =
  mode :: string
  width :: int
  height :: int
  pixels :: raster

definition alpha :: "rgba \<Rightarrow> int" where
  "alpha c = (case c of (r, g, b, a) \<Rightarrow> a)"

text \<open>Reading a pixel; a coordinate off the canvas is an error (\<open>None\<close>).\<close>

definition getpixel :: "pil_image \<Rightarrow> int \<times> int \<Rightarrow> rgba option" where
  "getpixel img p =
     (case p of (x, y) \<Rightarrow>
        if 0 \<le> x \<and> x < width img \<and> 0 \<le> y \<and> y < height img
        then Some (pixels img p) else None)"

text \<open>
  The ellipse rasterizer belongs to the imaging library, not to the script, so it is a
  parameter of the model: given the bounding box, the fill and outline colours, the canvas
  size and the pixels before the call, it gives the pixels after the call. Drawing happens
  in place on the canvas, so it cannot change the mode or the size of the image.
\<close>

type_synonym rasterizer = "box \<Rightarrow> rgba \<Rightarrow> rgba \<Rightarrow> int \<times> int \<Rightarrow> raster \<Rightarrow> raster"

definition in_box :: "box \<Rightarrow> int \<times> int \<Rightarrow> bool" where
  "in_box b p =
     (case b of (x0, y0, x1, y1) \<Rightarrow>
        case p of (x, y) \<Rightarrow> x0 \<le> x \<and> x \<le> x1 \<and> y0 \<le> y \<and> y \<le> y1)"

text \<open>
  The contract of the primitive that the transparency of the corners rests on: a pixel
  outside the bounding box, both of whose corners count as part of the box, is left as it
  was.
\<close>

definition draws_inside_box :: "rasterizer \<Rightarrow> bool" where
  "draws_inside_box ell =
     (\<forall>b fill outline sz px p. \<not> in_box b p \<longrightarrow> ell b fill outline sz px p = px p)"

text \<open>
  The other half of reading both corners as part of the box: the outline touches all four
  sides. For a box whose centre lies on a pixel, the pixel in the middle of each side,
  the far sides \<open>x1\<close> and \<open>y1\<close> included, gets the outline colour.
\<close>

definition reaches_box_sides :: "rasterizer \<Rightarrow> bool" where
  "reaches_box_sides ell =
     (\<forall>x0 y0 x1 y1 fill outline sz px.
        x0 < x1 \<and> y0 < y1 \<and> even (x0 + x1) \<and> even (y0 + y1) \<longrightarrow>
        ell (x0, y0, x1, y1) fill outline sz px (x0, (y0 + y1) div 2) = outline \<and>
        ell (x0, y0, x1, y1) fill outline sz px (x1, (y0 + y1) div 2) = outline \<and>
        ell (x0, y0, x1, y1) fill outline sz px ((x0 + x1) div 2, y0) = outline \<and>
        ell (x0, y0, x1, y1) fill outline sz px ((x0 + x1) div 2, y1) = outline)"

text \<open>
  One concrete hard-edged rasterizer, for instantiating the theorems at concrete inputs.
  It is not the library's algorithm: a pixel is covered when it lies in the ellipse
  inscribed in the box, a covered pixel with an uncovered neighbour gets the outline
  colour, every other covered pixel the fill colour.
\<close>

definition covered :: "box \<Rightarrow> int \<times> int \<Rightarrow> bool" where
  "covered b p =
     (case b of (x0, y0, x1, y1) \<Rightarrow>
        case p of (x, y) \<Rightarrow>
          in_box b p \<and>
          (2 * x - x0 - x1)\<^sup>2 * (y1 - y0)\<^sup>2 + (2 * y - y0 - y1)\<^sup>2 * (x1 - x0)\<^sup>2
            \<le> (x1 - x0)\<^sup>2 * (y1 - y0)\<^sup>2)"

definition plain_ellipse :: rasterizer where
  "plain_ellipse b fill outline sz px p =
     (case p of (x, y) \<Rightarrow>
        if covered b p then
          (if covered b (x - 1, y) \<and> covered b (x + 1, y) \<and>
              covered b (x, y - 1) \<and> covered b (x, y + 1)
           then fill else outline)
        else px p)"

subsection \<open>The state and the library calls\<close>

datatype error = FileNotFoundError string | ValueError | OverflowError

datatype call =
    New "int \<times> int" rgba
  | Ellipse box rgba rgba
  | Save string
  | Open string
  | Print string

record state =
  files :: "string \<rightharpoonup> pil_image"
  stdout :: string
  calls :: "call list"

definition note_call :: "call \<Rightarrow> state \<Rightarrow> state" where
  "note_call c s = s\<lparr>calls := calls s @ [c]\<rparr>"

text \<open>
  \<^verbatim>\<open>Image.new(mode, size, color)\<close>: a canvas with every pixel set to the colour. The
  library refuses a negative width or height with a \<open>ValueError\<close>, and one that does
  not fit a 32-bit signed integer with an \<open>OverflowError\<close>.
\<close>

definition Image_new ::
  "string \<Rightarrow> int \<times> int \<Rightarrow> rgba \<Rightarrow> state \<Rightarrow> (error + pil_image) \<times> state" where
  "Image_new m sz colour s =
     (if fst sz < 0 \<or> snd sz < 0 then (Inl ValueError, note_call (New sz colour) s)
      else if 2 ^ 31 \<le> fst sz \<or> 2 ^ 31 \<le> snd sz
      then (Inl OverflowError, note_call (New sz colour) s)
      else (Inr \<lparr>mode = m, width = fst sz, height = snd sz, pixels = (\<lambda>p. colour)\<rparr>,
            note_call (New sz colour) s))"

text \<open>
  \<^verbatim>\<open>draw.ellipse(xy, fill=..., outline=...)\<close> on the canvas \<open>img\<close>. The library
  refuses a box whose second corner lies left of or above the first with a
  \<open>ValueError\<close>, and then draws nothing.
\<close>

definition draw_ellipse ::
  "rasterizer \<Rightarrow> box \<Rightarrow> rgba \<Rightarrow> rgba \<Rightarrow> pil_image \<Rightarrow> state \<Rightarrow>
     (error + pil_image) \<times> state" where
  "draw_ellipse ell b fill outline img s =
     (case b of (x0, y0, x1, y1) \<Rightarrow>
        if x1 < x0 \<or> y1 < y0 then (Inl ValueError, note_call (Ellipse b fill outline) s)
        else (Inr (img\<lparr>pixels := ell b fill outline (width img, height img) (pixels img)\<rparr>),
              note_call (Ellipse b fill outline) s))"

text \<open>\<^verbatim>\<open>img.save(name)\<close>: the file is created, or replaced when it exists.\<close>

definition image_save :: "string \<Rightarrow> pil_image \<Rightarrow> state \<Rightarrow> state" where
  "image_save name img s = note_call (Save name) (s\<lparr>files := (files s)(name \<mapsto> img)\<rparr>)"

text \<open>\<^verbatim>\<open>Image.open(name)\<close>: raises when there is no such file.\<close>

definition Image_open :: "string \<Rightarrow> state \<Rightarrow> (error + pil_image) \<times> state" where
  "Image_open name s =
     (case files s name of
        None \<Rightarrow> (Inl (FileNotFoundError name), note_call (Open name) s)
      | Some img \<Rightarrow> (Inr img, note_call (Open name) s))"

text \<open>\<^verbatim>\<open>print(text)\<close>: the text and a newline.\<close>

definition print_line :: "string \<Rightarrow> state \<Rightarrow> state" where
  "print_line t s = note_call (Print t) (s\<lparr>stdout := stdout s @ t @ [CHR 0x0A]\<rparr>)"

subsection \<open>Formatting the file name\<close>

text \<open>
  \<^verbatim>\<open>f'{width}x{height}.png'\<close> writes both integers in decimal, with a minus sign
  when negative.
\<close>

definition digit_char :: "nat \<Rightarrow> char" where
  "digit_char d = ''0123456789'' ! d"

fun str_nat :: "nat \<Rightarrow> string" where
  "str_nat n = (if n < 10 then [digit_char n] else str_nat (n div 10) @ [digit_char (n mod 10)])"

declare str_nat.simps [simp del]

definition str_int :: "int \<Rightarrow> string" where
  "str_int i = (if i < 0 then CHR ''-'' # str_nat (nat (- i)) else str_nat (nat i))"

definition icon_filename :: "int \<Rightarrow> int \<Rightarrow> string" where
  "icon_filename w h = str_int w @ ''x'' @ str_int h @ ''.png''"

subsection \<open>The script\<close>

definition icon_sizes :: "(int \<times> int) list" where
  "icon_sizes = [(32, 32), (128, 128)]"

definition margin :: int where
  "margin = 4"

text \<open>
  The body of the loop, for one entry of the list. An error of a library call ends the
  body, and the run, at that call.
\<close>

definition icon_body :: "rasterizer \<Rightarrow> int \<times> int \<Rightarrow> state \<Rightarrow> error option \<times> state" where
  "icon_body ell sz s =
     (case sz of (w, h) \<Rightarrow>
        case Image_new ''RGBA'' (w, h) (0, 0, 0, 0) s of
          (Inl e, s1) \<Rightarrow> (Some e, s1)
        | (Inr img, s1) \<Rightarrow>
            (case draw_ellipse ell (margin, margin, w - margin, h - margin)
                    (70, 130, 180, 255) (25, 25, 112, 255) img s1 of
               (Inl e, s2) \<Rightarrow> (Some e, s2)
             | (Inr img', s2) \<Rightarrow> (None, image_save (icon_filename w h) img' s2)))"

fun icon_loop :: "rasterizer \<Rightarrow> (int \<times> int) list \<Rightarrow> state \<Rightarrow> error option \<times> state" where
  "icon_loop ell [] s = (None, s)"
| "icon_loop ell (sz # rest) s =
     (case icon_body ell sz s of
        (Some e, s1) \<Rightarrow> (Some e, s1)
      | (None, s1) \<Rightarrow> icon_loop ell rest s1)"

declare icon_loop.simps(2) [simp del]

text \<open>
  The whole script over a given list of sizes. The result is the error that ended the run,
  if any, and the state the run left behind.
\<close>

definition create_icons :: "rasterizer \<Rightarrow> (int \<times> int) list \<Rightarrow> state \<Rightarrow> error option \<times> state" where
  "create_icons ell sizes s =
     (case icon_loop ell sizes s of
        (Some e, s0) \<Rightarrow> (Some e, s0)
      | (None, s0) \<Rightarrow>
          (case Image_open ''128x128.png'' s0 of
             (Inl e, s1) \<Rightarrow> (Some e, s1)
           | (Inr img_128, s1) \<Rightarrow>
               (None, print_line ''Created placeholder icons''
                        (image_save ''128x128@2x.png'' img_128 s1))))"

text \<open>A run of the script as a process: started in a directory, with nothing printed yet.\<close>

definition start :: "(string \<rightharpoonup> pil_image) \<Rightarrow> state" where
  "start dir = \<lparr>files = dir, stdout = [], calls = []\<rparr>"

definition run_with :: "rasterizer \<Rightarrow> (int \<times> int) list \<Rightarrow> (string \<rightharpoonup> pil_image) \<Rightarrow> error option \<times> state" where
  "run_with ell sizes dir = create_icons ell sizes (start dir)"

definition main :: "rasterizer \<Rightarrow> (string \<rightharpoonup> pil_image) \<Rightarrow> error option \<times> state" where
  "main ell dir = run_with ell icon_sizes dir"

text \<open>The names of the files written, read off the calls, in order.\<close>

fun saved_names :: "call list \<Rightarrow> string list" where
  "saved_names [] = []"
| "saved_names (Save n # cs) = n # saved_names cs"
| "saved_names (c # cs) = saved_names cs"

subsection \<open>Notions used in the statements\<close>

text \<open>The characters a decimal numeral is made of.\<close>

definition is_digit :: "char \<Rightarrow> bool" where
  "is_digit c = (c \<in> set ''0123456789'')"

text \<open>
  The sizes for which both library calls of the loop body succeed (\<open>icon_body_ok_iff\<close>
  below): the box \<open>[margin, margin, w - margin, h - margin]\<close> is not inverted, and the
  size fits a 32-bit signed integer.
\<close>

definition size_ok :: "int \<times> int \<Rightarrow> bool" where
  "size_ok sz = (case sz of (w, h) \<Rightarrow> 2 * margin \<le> w \<and> w < 2 ^ 31 \<and> 2 * margin \<le> h \<and> h < 2 ^ 31)"

text \<open>
  The image the loop body saves for a size: the transparent canvas after the one drawing
  call. That the body saves this image is proved below (\<open>icon_body_ok\<close>).
\<close>

definition icon_image :: "rasterizer \<Rightarrow> int \<Rightarrow> int \<Rightarrow> pil_image" where
  "icon_image ell w h =
     \<lparr>mode = ''RGBA'', width = w, height = h,
      pixels = ell (margin, margin, w - margin, h - margin) (70, 130, 180, 255) (25, 25, 112, 255)
                 (w, h) (\<lambda>p. (0, 0, 0, 0))\<rparr>"

text \<open>The library calls of one pass through the loop body, in order.\<close>

definition body_calls :: "int \<times> int \<Rightarrow> call list" where
  "body_calls sz =
     (case sz of (w, h) \<Rightarrow>
        [New (w, h) (0, 0, 0, 0),
         Ellipse (margin, margin, w - margin, h - margin) (70, 130, 180, 255) (25, 25, 112, 255),
         Save (icon_filename w h)])"

text \<open>
  Two working directories to start a run in: an empty one, and one that already holds a
  file \<open>128x128.png\<close> from elsewhere (here an opaque single-colour image).
\<close>

definition empty_dir :: "string \<rightharpoonup> pil_image" where
  "empty_dir = Map.empty"

definition stale_image :: pil_image where
  "stale_image = \<lparr>mode = ''RGBA'', width = 128, height = 128, pixels = (\<lambda>p. (1, 2, 3, 255))\<rparr>"

definition stale_dir :: "string \<rightharpoonup> pil_image" where
  "stale_dir = empty_dir(''128x128.png'' \<mapsto> stale_image)"

section \<open>Properties\<close>

subsection \<open>File names\<close>

lemma digit_char_cases: "d < 10 \<Longrightarrow> is_digit (digit_char d)"
  unfolding digit_char_def is_digit_def by (rule nth_mem) simp

lemma lt10_cases: "(d::nat) < 10 \<Longrightarrow> d = 0 \<or> d = 1 \<or> d = 2 \<or> d = 3 \<or> d = 4 \<or> d = 5 \<or> d = 6 \<or> d = 7 \<or> d = 8 \<or> d = 9"
  by arith

lemma digit_char_inj: "d < 10 \<Longrightarrow> e < 10 \<Longrightarrow> digit_char d = digit_char e \<Longrightarrow> d = e"
  by (drule lt10_cases, drule lt10_cases) (auto simp: digit_char_def)

lemma str_nat_digits: "list_all is_digit (str_nat n)"
proof (induction n rule: str_nat.induct)
  case (1 n)
  show ?case
  proof (cases "n < 10")
    case True
    then show ?thesis by (subst str_nat.simps) (simp add: digit_char_cases)
  next
    case False
    then show ?thesis using 1 by (subst str_nat.simps) (simp add: digit_char_cases)
  qed
qed

lemma str_nat_nonempty: "str_nat n \<noteq> []"
  by (subst str_nat.simps) simp

lemma str_nat_inj: "str_nat m = str_nat n \<Longrightarrow> m = n"
proof (induction m arbitrary: n rule: str_nat.induct)
  case (1 m)
  show ?case
  proof (cases "m < 10")
    case m: True
    show ?thesis
    proof (cases "n < 10")
      case True
      with m 1(2) show ?thesis
        by (simp add: str_nat.simps[of m] str_nat.simps[of n] digit_char_inj)
    next
      case False
      with m 1(2) show ?thesis
        using str_nat_nonempty[of "n div 10"] str_nat_nonempty[of "m div 10"]
        by (auto simp: str_nat.simps[of m] str_nat.simps[of n])
    qed
  next
    case m: False
    show ?thesis
    proof (cases "n < 10")
      case True
      with m 1(2) show ?thesis
        using str_nat_nonempty[of "n div 10"] str_nat_nonempty[of "m div 10"]
        by (auto simp: str_nat.simps[of m] str_nat.simps[of n])
    next
      case False
      with m 1(2) have a: "str_nat (m div 10) = str_nat (n div 10)"
        and b: "digit_char (m mod 10) = digit_char (n mod 10)"
        by (simp_all add: str_nat.simps[of m] str_nat.simps[of n])
      from 1(1)[OF m a] have "m div 10 = n div 10" .
      moreover from b have "m mod 10 = n mod 10" by (intro digit_char_inj) simp_all
      ultimately show ?thesis by (metis div_mult_mod_eq)
    qed
  qed
qed

lemma split_at_x:
  assumes "c \<notin> set a" "c \<notin> set a'" "a @ c # r = a' @ c # r'"
  shows "a = a' \<and> r = r'"
  using assms
proof (induction a arbitrary: a')
  case Nil
  then show ?case by (cases a') auto
next
  case (Cons z a)
  then show ?case by (cases a') auto
qed

lemma str_nat_no_char: "\<not> is_digit c \<Longrightarrow> c \<notin> set (str_nat n)"
  using str_nat_digits[of n] by (auto simp: list_all_iff)

lemma not_digit_x: "\<not> is_digit CHR ''x''" by (simp add: is_digit_def)

lemma not_digit_at: "\<not> is_digit CHR ''@''" by (simp add: is_digit_def)

lemma not_digit_minus: "\<not> is_digit CHR ''-''" by (simp add: is_digit_def)

lemma str_int_no_x: "CHR ''x'' \<notin> set (str_int i)"
  by (simp add: str_int_def str_nat_no_char not_digit_x)

lemma str_int_no_at: "CHR ''@'' \<notin> set (str_int i)"
  by (simp add: str_int_def str_nat_no_char not_digit_at)

lemma str_nat_not_minus: "str_nat n \<noteq> CHR ''-'' # t"
proof
  assume "str_nat n = CHR ''-'' # t"
  then have "CHR ''-'' \<in> set (str_nat n)" by simp
  with str_nat_no_char[OF not_digit_minus, of n] show False by simp
qed

lemma str_int_inj:
  assumes "str_int i = str_int j"
  shows "i = j"
proof (cases "i < 0")
  case i: True
  show ?thesis
  proof (cases "j < 0")
    case True
    with i assms have "str_nat (nat (- i)) = str_nat (nat (- j))" by (simp add: str_int_def)
    then have "nat (- i) = nat (- j)" by (rule str_nat_inj)
    with i True show ?thesis by simp
  next
    case False
    with i assms have "str_nat (nat j) = CHR ''-'' # str_nat (nat (- i))" by (simp add: str_int_def)
    then show ?thesis by (simp add: str_nat_not_minus)
  qed
next
  case i: False
  show ?thesis
  proof (cases "j < 0")
    case True
    with i assms have "str_nat (nat i) = CHR ''-'' # str_nat (nat (- j))" by (simp add: str_int_def)
    then show ?thesis by (simp add: str_nat_not_minus)
  next
    case False
    with i assms have "str_nat (nat i) = str_nat (nat j)" by (simp add: str_int_def)
    then have "nat i = nat j" by (rule str_nat_inj)
    with i False show ?thesis by simp
  qed
qed

lemma icon_filename_inj:
  assumes "icon_filename w h = icon_filename w' h'"
  shows "w = w' \<and> h = h'"
proof -
  from assms have "str_int w @ CHR ''x'' # (str_int h @ ''.png'') = str_int w' @ CHR ''x'' # (str_int h' @ ''.png'')"
    by (simp add: icon_filename_def)
  from split_at_x[OF str_int_no_x str_int_no_x this]
  have "str_int w = str_int w'" and "str_int h = str_int h'" by simp_all
  then show ?thesis by (simp add: str_int_inj)
qed

lemma icon_filename_32: "icon_filename 32 32 = ''32x32.png''"
  by (simp add: icon_filename_def str_int_def str_nat.simps digit_char_def)

lemma icon_filename_128: "icon_filename 128 128 = ''128x128.png''"
  by (simp add: icon_filename_def str_int_def str_nat.simps digit_char_def)

lemma icon_filename_is_128: "icon_filename w h = ''128x128.png'' \<longleftrightarrow> w = 128 \<and> h = 128"
  using icon_filename_inj[of w h 128 128] by (auto simp: icon_filename_128)

lemma icon_filename_not_2x: "icon_filename w h \<noteq> ''128x128@2x.png''"
proof
  assume "icon_filename w h = ''128x128@2x.png''"
  then have "str_int w @ CHR ''x'' # (str_int h @ ''.png'') = ''128'' @ CHR ''x'' # ''128@2x.png''"
    by (simp add: icon_filename_def)
  from split_at_x[OF str_int_no_x _ this]
  have "str_int h @ ''.png'' = ''128@2x'' @ ''.png''" by simp
  then have "str_int h = ''128@2x''" by (simp only: append_same_eq)
  with str_int_no_at[of h] show False by simp
qed

subsection \<open>The loop body\<close>

lemma icon_body_ok:
  assumes "size_ok (w, h)"
  shows "icon_body ell (w, h) s =
           (None, s\<lparr>files := (files s)(icon_filename w h \<mapsto> icon_image ell w h),
                     calls := calls s @ body_calls (w, h)\<rparr>)"
  using assms
  by (simp add: icon_body_def Image_new_def draw_ellipse_def image_save_def note_call_def
      icon_image_def body_calls_def size_ok_def margin_def)

lemma icon_body_fails:
  assumes "\<not> size_ok sz"
  shows "\<exists>e cs. icon_body ell sz s = (Some e, s\<lparr>calls := calls s @ cs\<rparr>) \<and>
                saved_names cs = [] \<and> (\<forall>t. Print t \<notin> set cs)"
proof -
  obtain w h where sz: "sz = (w, h)" by (cases sz)
  show ?thesis
  proof (cases "w < 0 \<or> h < 0 \<or> 2 ^ 31 \<le> w \<or> 2 ^ 31 \<le> h")
    case True
    then have "\<exists>e. icon_body ell sz s = (Some e, s\<lparr>calls := calls s @ [New (w, h) (0, 0, 0, 0)]\<rparr>)"
      by (auto simp: sz icon_body_def Image_new_def note_call_def)
    then show ?thesis by fastforce
  next
    case False
    with assms have "w < 2 * margin \<or> h < 2 * margin"
      by (auto simp: sz size_ok_def)
    with False have "icon_body ell sz s =
        (Some ValueError, s\<lparr>calls := calls s @
           [New (w, h) (0, 0, 0, 0),
            Ellipse (margin, margin, w - margin, h - margin)
              (70, 130, 180, 255) (25, 25, 112, 255)]\<rparr>)"
      by (auto simp: sz icon_body_def Image_new_def draw_ellipse_def note_call_def margin_def)
    then show ?thesis by fastforce
  qed
qed

lemma icon_body_ok_iff: "fst (icon_body ell sz s) = None \<longleftrightarrow> size_ok sz"
proof (cases "size_ok sz")
  case True
  then show ?thesis by (cases sz) (simp add: icon_body_ok)
next
  case False
  from icon_body_fails[OF this, of ell s] False show ?thesis by auto
qed

lemma saved_names_append: "saved_names (xs @ ys) = saved_names xs @ saved_names ys"
  by (induction xs rule: saved_names.induct) simp_all

lemma saved_names_body: "saved_names (body_calls (w, h)) = [icon_filename w h]"
  by (simp add: body_calls_def)

lemma saved_names_loop:
  "saved_names (concat (map body_calls sizes)) = map (\<lambda>(w, h). icon_filename w h) sizes"
  by (induction sizes) (auto simp: saved_names_append saved_names_body)

lemma body_calls_no_print: "Print t \<notin> set (body_calls sz)"
  by (cases sz) (simp add: body_calls_def)

subsection \<open>The loop\<close>

lemma icon_loop_Cons_ok:
  assumes "size_ok (w, h)"
  shows "icon_loop ell ((w, h) # rest) s =
           icon_loop ell rest (s\<lparr>files := (files s)(icon_filename w h \<mapsto> icon_image ell w h),
                                  calls := calls s @ body_calls (w, h)\<rparr>)"
  by (simp add: icon_loop.simps(2) icon_body_ok[OF assms])

lemma icon_loop_Cons_fails:
  assumes "\<not> size_ok sz"
  shows "icon_loop ell (sz # rest) s = icon_body ell sz s"
  using icon_body_fails[OF assms, of ell s] by (auto simp: icon_loop.simps(2))

lemma icon_loop_ok_iff: "fst (icon_loop ell sizes s) = None \<longleftrightarrow> list_all size_ok sizes"
proof (induction sizes arbitrary: s)
  case Nil
  show ?case by simp
next
  case (Cons sz sizes)
  show ?case
  proof (cases "size_ok sz")
    case True
    then show ?thesis using Cons.IH by (cases sz) (simp add: icon_loop_Cons_ok)
  next
    case False
    then show ?thesis by (simp add: icon_loop_Cons_fails icon_body_ok_iff)
  qed
qed

text \<open>
  What the loop leaves behind, whether or not it completes: it writes a file for each
  entry before the first one the library refuses, and prints nothing.
\<close>

lemma icon_loop_shape:
  "\<exists>cs. calls (snd (icon_loop ell sizes s)) = calls s @ cs \<and>
        (\<forall>t. Print t \<notin> set cs) \<and>
        saved_names cs = map (\<lambda>(w, h). icon_filename w h) (takeWhile size_ok sizes)"
proof (induction sizes arbitrary: s)
  case Nil
  show ?case by simp
next
  case (Cons sz sizes)
  obtain w h where sz: "sz = (w, h)" by (cases sz)
  show ?case
  proof (cases "size_ok sz")
    case True
    let ?s1 = "s\<lparr>files := (files s)(icon_filename w h \<mapsto> icon_image ell w h),
                  calls := calls s @ body_calls (w, h)\<rparr>"
    from Cons.IH[of ?s1] obtain cs where
      cs: "calls (snd (icon_loop ell sizes ?s1)) = calls ?s1 @ cs"
        "\<forall>t. Print t \<notin> set cs"
        "saved_names cs = map (\<lambda>(w, h). icon_filename w h) (takeWhile size_ok sizes)"
      by blast
    have "calls (snd (icon_loop ell (sz # sizes) s)) = calls s @ (body_calls (w, h) @ cs)"
      using True cs(1) by (simp add: sz icon_loop_Cons_ok)
    moreover have "\<forall>t. Print t \<notin> set (body_calls (w, h) @ cs)"
      using cs(2) by (simp add: body_calls_no_print)
    moreover have "saved_names (body_calls (w, h) @ cs) =
        map (\<lambda>(w, h). icon_filename w h) (takeWhile size_ok (sz # sizes))"
      using True cs(3) by (simp add: sz saved_names_append saved_names_body)
    ultimately show ?thesis by blast
  next
    case False
    from icon_body_fails[OF False, of ell s] obtain e cs where
      "icon_body ell sz s = (Some e, s\<lparr>calls := calls s @ cs\<rparr>)"
      "saved_names cs = []" "\<forall>t. Print t \<notin> set cs"
      by blast
    with False show ?thesis by (auto simp: icon_loop_Cons_fails)
  qed
qed

lemma icon_loop_stdout: "stdout (snd (icon_loop ell sizes s)) = stdout s"
proof (induction sizes arbitrary: s)
  case Nil
  show ?case by simp
next
  case (Cons sz sizes)
  show ?case
  proof (cases "size_ok sz")
    case True
    then show ?thesis using Cons.IH by (cases sz) (simp add: icon_loop_Cons_ok)
  next
    case False
    from icon_body_fails[OF False, of ell s] show ?thesis
      by (auto simp: icon_loop_Cons_fails[OF False])
  qed
qed

lemma icon_loop_calls:
  "list_all size_ok sizes \<Longrightarrow>
   calls (snd (icon_loop ell sizes s)) = calls s @ concat (map body_calls sizes)"
proof (induction sizes arbitrary: s)
  case Nil
  show ?case by simp
next
  case (Cons sz sizes)
  then show ?case by (cases sz) (simp add: icon_loop_Cons_ok)
qed

lemma icon_loop_files_other:
  "n \<notin> (\<lambda>(w, h). icon_filename w h) ` set (takeWhile size_ok sizes) \<Longrightarrow>
   files (snd (icon_loop ell sizes s)) n = files s n"
proof (induction sizes arbitrary: s)
  case Nil
  show ?case by simp
next
  case (Cons sz sizes)
  obtain w h where sz: "sz = (w, h)" by (cases sz)
  show ?case
  proof (cases "size_ok sz")
    case True
    with Cons.prems sz have "n \<noteq> icon_filename w h"
      and "n \<notin> (\<lambda>(w, h). icon_filename w h) ` set (takeWhile size_ok sizes)"
      by auto
    then show ?thesis using True Cons.IH by (simp add: sz icon_loop_Cons_ok)
  next
    case False
    from icon_body_fails[OF False, of ell s] show ?thesis
      by (auto simp: icon_loop_Cons_fails[OF False])
  qed
qed

lemma icon_loop_files_entry:
  "(w, h) \<in> set (takeWhile size_ok sizes) \<Longrightarrow>
   files (snd (icon_loop ell sizes s)) (icon_filename w h) = Some (icon_image ell w h)"
proof (induction sizes arbitrary: s)
  case Nil
  then show ?case by simp
next
  case (Cons sz sizes)
  from Cons.prems have ok: "size_ok sz" by (auto split: if_splits)
  obtain w' h' where sz: "sz = (w', h')" by (cases sz)
  show ?case
  proof (cases "(w, h) \<in> set (takeWhile size_ok sizes)")
    case True
    then show ?thesis using ok Cons.IH by (simp add: sz icon_loop_Cons_ok)
  next
    case False
    with Cons.prems ok have eq: "sz = (w, h)" by simp
    have "icon_filename w h \<notin> (\<lambda>(w, h). icon_filename w h) ` set (takeWhile size_ok sizes)"
    proof
      assume "icon_filename w h \<in> (\<lambda>(w, h). icon_filename w h) ` set (takeWhile size_ok sizes)"
      then obtain w' h' where "(w', h') \<in> set (takeWhile size_ok sizes)"
        "icon_filename w h = icon_filename w' h'"
        by auto
      with icon_filename_inj[of w h w' h'] False show False by simp
    qed
    from icon_loop_files_other[OF this] ok eq show ?thesis by (simp add: icon_loop_Cons_ok)
  qed
qed

lemma takeWhile_all: "list_all P xs \<Longrightarrow> takeWhile P xs = xs"
  by (induction xs) simp_all

subsection \<open>The copying step and the end of the run\<close>

lemma create_icons_loop_fails:
  assumes "fst (icon_loop ell sizes s) \<noteq> None"
  shows "create_icons ell sizes s = icon_loop ell sizes s"
  using assms by (cases "icon_loop ell sizes s") (auto simp: create_icons_def)

lemma create_icons_found:
  assumes "fst (icon_loop ell sizes s) = None"
    and "files (snd (icon_loop ell sizes s)) ''128x128.png'' = Some img"
  shows "fst (create_icons ell sizes s) = None"
    and "files (snd (create_icons ell sizes s)) =
           (files (snd (icon_loop ell sizes s)))(''128x128@2x.png'' \<mapsto> img)"
    and "stdout (snd (create_icons ell sizes s)) = stdout s @ ''Created placeholder icons'' @ [CHR 0x0A]"
    and "calls (snd (create_icons ell sizes s)) =
           calls (snd (icon_loop ell sizes s)) @
           [Open ''128x128.png'', Save ''128x128@2x.png'', Print ''Created placeholder icons'']"
  using assms icon_loop_stdout[of ell sizes s]
  by (cases "icon_loop ell sizes s";
      simp add: create_icons_def Image_open_def image_save_def print_line_def note_call_def)+

lemma create_icons_missing:
  assumes "fst (icon_loop ell sizes s) = None"
    and "files (snd (icon_loop ell sizes s)) ''128x128.png'' = None"
  shows "fst (create_icons ell sizes s) = Some (FileNotFoundError ''128x128.png'')"
    and "files (snd (create_icons ell sizes s)) = files (snd (icon_loop ell sizes s))"
    and "stdout (snd (create_icons ell sizes s)) = stdout s"
    and "calls (snd (create_icons ell sizes s)) =
           calls (snd (icon_loop ell sizes s)) @ [Open ''128x128.png'']"
  using assms icon_loop_stdout[of ell sizes s]
  by (cases "icon_loop ell sizes s";
      simp add: create_icons_def Image_open_def note_call_def)+

lemma create_icons_ok_iff:
  "fst (create_icons ell sizes s) = None \<longleftrightarrow>
     fst (icon_loop ell sizes s) = None \<and> files (snd (icon_loop ell sizes s)) ''128x128.png'' \<noteq> None"
proof (cases "fst (icon_loop ell sizes s)")
  case None
  then show ?thesis
    by (cases "files (snd (icon_loop ell sizes s)) ''128x128.png''")
       (simp_all add: create_icons_found(1) create_icons_missing(1))
next
  case (Some e)
  then show ?thesis by (simp add: create_icons_loop_fails)
qed

subsection \<open>The reference run\<close>

lemma icon_sizes_names:
  "map (\<lambda>(w, h). icon_filename w h) icon_sizes = [''32x32.png'', ''128x128.png'']"
  by (simp add: icon_sizes_def icon_filename_32 icon_filename_128)

lemma icon_sizes_ok: "list_all size_ok icon_sizes"
  by (simp add: icon_sizes_def size_ok_def margin_def)

lemma main_loop:
  "icon_loop ell icon_sizes s =
     (None, s\<lparr>files := (files s)(''32x32.png'' \<mapsto> icon_image ell 32 32,
                                  ''128x128.png'' \<mapsto> icon_image ell 128 128),
               calls := calls s @ body_calls (32, 32) @ body_calls (128, 128)\<rparr>)"
proof -
  have ok: "size_ok (32, 32)" "size_ok (128, 128)"
    by (simp_all add: size_ok_def margin_def)
  show ?thesis
    by (simp add: icon_sizes_def icon_loop_Cons_ok[OF ok(1)] icon_loop_Cons_ok[OF ok(2)]
        icon_filename_32 icon_filename_128)
qed

lemma main_loop_128:
  "fst (icon_loop ell icon_sizes s) = None"
  "files (snd (icon_loop ell icon_sizes s)) ''128x128.png'' = Some (icon_image ell 128 128)"
  by (simp_all add: main_loop)

lemma main_ok: "fst (main ell dir) = None"
  by (simp add: main_def run_with_def create_icons_found(1)[OF main_loop_128])

lemma main_files:
  "files (snd (main ell dir)) =
     dir(''32x32.png'' \<mapsto> icon_image ell 32 32, ''128x128.png'' \<mapsto> icon_image ell 128 128,
         ''128x128@2x.png'' \<mapsto> icon_image ell 128 128)"
  by (simp add: main_def run_with_def create_icons_found(2)[OF main_loop_128])
     (simp add: main_loop start_def)

lemma main_calls:
  "calls (snd (main ell dir)) =
     [New (32, 32) (0, 0, 0, 0),
      Ellipse (4, 4, 28, 28) (70, 130, 180, 255) (25, 25, 112, 255),
      Save ''32x32.png'',
      New (128, 128) (0, 0, 0, 0),
      Ellipse (4, 4, 124, 124) (70, 130, 180, 255) (25, 25, 112, 255),
      Save ''128x128.png'',
      Open ''128x128.png'',
      Save ''128x128@2x.png'',
      Print ''Created placeholder icons'']"
  by (simp add: main_def run_with_def create_icons_found(4)[OF main_loop_128])
     (simp add: main_loop body_calls_def icon_filename_32 icon_filename_128 start_def margin_def)

lemma main_stdout: "stdout (snd (main ell dir)) = ''Created placeholder icons'' @ [CHR 0x0A]"
  by (simp add: main_def run_with_def create_icons_found(3)[OF main_loop_128] start_def)

subsection \<open>The icons of a run\<close>

lemma icon_image_outside:
  assumes "draws_inside_box ell" "\<not> in_box (margin, margin, w - margin, h - margin) p"
  shows "pixels (icon_image ell w h) p = (0, 0, 0, 0)"
proof -
  from assms(1) have "\<And>b fill outline sz px p. \<not> in_box b p \<Longrightarrow> ell b fill outline sz px p = px p"
    unfolding draws_inside_box_def by blast
  from this[OF assms(2)] show ?thesis by (simp add: icon_image_def)
qed

lemma icon_image_sides:
  assumes "reaches_box_sides ell" "2 * margin < w" "2 * margin < h" "even w" "even h"
  shows "pixels (icon_image ell w h) (margin, h div 2) = (25, 25, 112, 255)"
    and "pixels (icon_image ell w h) (w - margin, h div 2) = (25, 25, 112, 255)"
    and "pixels (icon_image ell w h) (w div 2, margin) = (25, 25, 112, 255)"
    and "pixels (icon_image ell w h) (w div 2, h - margin) = (25, 25, 112, 255)"
proof -
  let ?f = "(70, 130, 180, 255) :: rgba" and ?o = "(25, 25, 112, 255) :: rgba"
  let ?px = "(\<lambda>p. (0, 0, 0, 0)) :: raster"
  have pre: "margin < w - margin \<and> margin < h - margin \<and>
             even (margin + (w - margin)) \<and> even (margin + (h - margin))"
    using assms(2-5) by simp
  from assms(1) have
    "\<And>x0 y0 x1 y1 fill outline sz px.
        x0 < x1 \<and> y0 < y1 \<and> even (x0 + x1) \<and> even (y0 + y1) \<Longrightarrow>
        ell (x0, y0, x1, y1) fill outline sz px (x0, (y0 + y1) div 2) = outline \<and>
        ell (x0, y0, x1, y1) fill outline sz px (x1, (y0 + y1) div 2) = outline \<and>
        ell (x0, y0, x1, y1) fill outline sz px ((x0 + x1) div 2, y0) = outline \<and>
        ell (x0, y0, x1, y1) fill outline sz px ((x0 + x1) div 2, y1) = outline"
    unfolding reaches_box_sides_def by blast
  from this[OF pre, of ?f ?o "(w, h)" ?px]
  show "pixels (icon_image ell w h) (margin, h div 2) = (25, 25, 112, 255)"
    and "pixels (icon_image ell w h) (w - margin, h div 2) = (25, 25, 112, 255)"
    and "pixels (icon_image ell w h) (w div 2, margin) = (25, 25, 112, 255)"
    and "pixels (icon_image ell w h) (w div 2, h - margin) = (25, 25, 112, 255)"
    by (simp_all add: icon_image_def)
qed

lemma icon_image_size: "width (icon_image ell w h) = w" "height (icon_image ell w h) = h"
  "mode (icon_image ell w h) = ''RGBA''"
  by (simp_all add: icon_image_def)

lemma run_with_files_entry:
  assumes "(w, h) \<in> set (takeWhile size_ok sizes)"
  shows "files (snd (run_with ell sizes dir)) (icon_filename w h) = Some (icon_image ell w h)"
proof (cases "fst (icon_loop ell sizes (start dir))")
  case (Some e)
  then show ?thesis
    by (simp add: run_with_def create_icons_loop_fails icon_loop_files_entry[OF assms])
next
  case ok: None
  show ?thesis
  proof (cases "files (snd (icon_loop ell sizes (start dir))) ''128x128.png''")
    case None
    then show ?thesis
      by (simp add: run_with_def create_icons_missing(2)[OF ok] icon_loop_files_entry[OF assms])
  next
    case (Some img)
    then show ?thesis
      by (simp add: run_with_def create_icons_found(2)[OF ok] icon_loop_files_entry[OF assms]
          icon_filename_not_2x)
  qed
qed

subsection \<open>The sample rasterizer and directories\<close>

lemma plain_ellipse_inside: "draws_inside_box plain_ellipse"
  by (simp add: draws_inside_box_def plain_ellipse_def covered_def split: prod.splits)

lemma plain_ellipse_sides: "reaches_box_sides plain_ellipse"
  unfolding reaches_box_sides_def
proof (intro allI impI)
  fix x0 y0 x1 y1 :: int and fill outline :: rgba and sz :: "int \<times> int" and px :: raster
  assume "x0 < x1 \<and> y0 < y1 \<and> even (x0 + x1) \<and> even (y0 + y1)"
  then have lt: "x0 < x1" "y0 < y1" and ev: "even (x0 + x1)" "even (y0 + y1)" by simp_all
  define xm ym where "xm = (x0 + x1) div 2" and "ym = (y0 + y1) div 2"
  from ev have mid: "2 * xm = x0 + x1" "2 * ym = y0 + y1" by (simp_all add: xm_def ym_def)
  from lt mid have rng: "x0 \<le> xm" "xm \<le> x1" "y0 \<le> ym" "ym \<le> y1" by simp_all
  have sq: "(x0 - x1)\<^sup>2 = (x1 - x0)\<^sup>2" "(y0 - y1)\<^sup>2 = (y1 - y0)\<^sup>2"
    by (simp_all add: power2_commute)
  have z: "2 * ym - y0 - y1 = 0" "2 * xm - x0 - x1 = 0" using mid by simp_all
  have c: "covered (x0, y0, x1, y1) (x0, ym)" "covered (x0, y0, x1, y1) (x1, ym)"
    "covered (x0, y0, x1, y1) (xm, y0)" "covered (x0, y0, x1, y1) (xm, y1)"
    using lt rng by (simp_all add: covered_def in_box_def z sq)
  have n: "\<not> covered (x0, y0, x1, y1) (x0 - 1, ym)" "\<not> covered (x0, y0, x1, y1) (x1 + 1, ym)"
    "\<not> covered (x0, y0, x1, y1) (xm, y0 - 1)" "\<not> covered (x0, y0, x1, y1) (xm, y1 + 1)"
    by (simp_all add: covered_def in_box_def)
  show "plain_ellipse (x0, y0, x1, y1) fill outline sz px (x0, (y0 + y1) div 2) = outline \<and>
        plain_ellipse (x0, y0, x1, y1) fill outline sz px (x1, (y0 + y1) div 2) = outline \<and>
        plain_ellipse (x0, y0, x1, y1) fill outline sz px ((x0 + x1) div 2, y0) = outline \<and>
        plain_ellipse (x0, y0, x1, y1) fill outline sz px ((x0 + x1) div 2, y1) = outline"
    using c n unfolding xm_def[symmetric] ym_def[symmetric]
    by (simp add: plain_ellipse_def)
qed

lemma stale_loop:
  "fst (icon_loop plain_ellipse [(32, 32)] (start stale_dir)) = None"
  "files (snd (icon_loop plain_ellipse [(32, 32)] (start stale_dir))) ''128x128.png'' = Some stale_image"
proof -
  have ok: "size_ok (32, 32)" by (simp add: size_ok_def margin_def)
  show "fst (icon_loop plain_ellipse [(32, 32)] (start stale_dir)) = None"
    and "files (snd (icon_loop plain_ellipse [(32, 32)] (start stale_dir))) ''128x128.png'' = Some stale_image"
    by (simp_all add: icon_loop_Cons_ok[OF ok] icon_filename_32 start_def stale_dir_def)
qed

lemma stale_run_ok: "fst (create_icons plain_ellipse [(32, 32)] (start stale_dir)) = None"
  by (simp add: create_icons_found(1)[OF stale_loop])

subsection \<open>Names the loop does not write, and the names a run writes\<close>

lemma loop_keeps_128:
  assumes "(128, 128) \<notin> set sizes"
  shows "files (snd (icon_loop ell sizes s)) ''128x128.png'' = files s ''128x128.png''"
proof -
  have "''128x128.png'' \<notin> (\<lambda>(w, h). icon_filename w h) ` set (takeWhile size_ok sizes)"
  proof
    assume "''128x128.png'' \<in> (\<lambda>(w, h). icon_filename w h) ` set (takeWhile size_ok sizes)"
    then obtain w h where "(w, h) \<in> set (takeWhile size_ok sizes)" "icon_filename w h = ''128x128.png''"
      by auto
    with assms set_takeWhileD[of "(w, h)" size_ok sizes] show False
      by (simp add: icon_filename_is_128)
  qed
  then show ?thesis by (rule icon_loop_files_other)
qed

lemma names_not_2x: "''128x128@2x.png'' \<notin> (\<lambda>(w, h). icon_filename w h) ` A"
  using icon_filename_not_2x by (auto simp: image_iff split: prod.splits) metis

lemma loop_keeps_2x:
  "files (snd (icon_loop ell sizes s)) ''128x128@2x.png'' = files s ''128x128@2x.png''"
  by (rule icon_loop_files_other) (rule names_not_2x)

lemma icon_filename_inj_on: "inj_on (\<lambda>(w, h). icon_filename w h) A"
  by (rule inj_onI) (auto dest: icon_filename_inj)

text \<open>
  The files a run saves: one for each entry the loop gets through, then the copy if the
  run succeeds.
\<close>

lemma run_with_saved_names:
  "saved_names (calls (snd (run_with ell sizes dir))) =
     map (\<lambda>(w, h). icon_filename w h) (takeWhile size_ok sizes) @
     (if fst (run_with ell sizes dir) = None then [''128x128@2x.png''] else [])"
proof -
  from icon_loop_shape[of ell sizes "start dir"] obtain cs where
    cs: "calls (snd (icon_loop ell sizes (start dir))) = cs"
      "saved_names cs = map (\<lambda>(w, h). icon_filename w h) (takeWhile size_ok sizes)"
    by (auto simp: start_def)
  show ?thesis
  proof (cases "fst (icon_loop ell sizes (start dir))")
    case (Some e)
    then show ?thesis by (simp add: run_with_def create_icons_loop_fails cs)
  next
    case ok: None
    show ?thesis
    proof (cases "files (snd (icon_loop ell sizes (start dir))) ''128x128.png''")
      case None
      then show ?thesis
        by (simp add: run_with_def create_icons_missing(1,4)[OF ok] cs saved_names_append)
    next
      case (Some img)
      then show ?thesis
        by (simp add: run_with_def create_icons_found(1,4)[OF ok] cs saved_names_append)
    qed
  qed
qed

lemma run_with_ok_iff:
  "fst (run_with ell sizes dir) = None \<longleftrightarrow>
     list_all size_ok sizes \<and> files (snd (icon_loop ell sizes (start dir))) ''128x128.png'' \<noteq> None"
  by (simp add: run_with_def create_icons_ok_iff icon_loop_ok_iff)

lemma run_with_files_other:
  assumes "fst (run_with ell sizes dir) = None"
    and "n \<notin> set (saved_names (calls (snd (run_with ell sizes dir))))"
  shows "files (snd (run_with ell sizes dir)) n = dir n"
proof -
  from assms(1) obtain img where ok: "fst (icon_loop ell sizes (start dir)) = None"
    and img: "files (snd (icon_loop ell sizes (start dir))) ''128x128.png'' = Some img"
    by (auto simp: run_with_def create_icons_ok_iff)
  from assms have n: "n \<noteq> ''128x128@2x.png''"
    "n \<notin> (\<lambda>(w, h). icon_filename w h) ` set (takeWhile size_ok sizes)"
    by (simp_all add: run_with_saved_names)
  from icon_loop_files_other[OF n(2), of ell "start dir"] n(1) show ?thesis
    by (simp add: run_with_def create_icons_found(2)[OF ok img]) (simp add: start_def)
qed

section \<open>The claims\<close>

text \<open>
  C1. The hardcoded size list is exactly \<open>[(32, 32), (128, 128)]\<close>. From any working
  directory and with any rasterizer the run succeeds, and for every entry \<open>(w, h)\<close> of the
  list the file named \<open>{w}x{h}.png\<close> (here \<open>32x32.png\<close> and \<open>128x128.png\<close>) then holds
  an image of width \<open>w\<close> and height \<open>h\<close>. The files are written in the order of the list,
  before the copy.
\<close>

theorem main_writes_sized_icons:
  "icon_sizes = [(32, 32), (128, 128)] \<and>
   fst (main ell dir) = None \<and>
   (\<forall>(w, h) \<in> set icon_sizes.
      \<exists>img. files (snd (main ell dir)) (icon_filename w h) = Some img \<and>
            width img = w \<and> height img = h) \<and>
   map (\<lambda>(w, h). icon_filename w h) icon_sizes = [''32x32.png'', ''128x128.png''] \<and>
   saved_names (calls (snd (main ell dir))) = [''32x32.png'', ''128x128.png'', ''128x128@2x.png'']"
proof -
  have "\<forall>(w, h) \<in> set icon_sizes.
      \<exists>img. files (snd (main ell dir)) (icon_filename w h) = Some img \<and>
            width img = w \<and> height img = h"
    unfolding main_def using run_with_files_entry[of _ _ icon_sizes ell dir]
    by (auto simp: icon_image_size takeWhile_all[OF icon_sizes_ok])
  then show ?thesis
    by (simp add: icon_sizes_names main_ok main_calls) (simp add: icon_sizes_def)
qed

theorem main_writes_sized_icons_witness:
  "(32, 32) \<in> set icon_sizes \<and>
   (\<exists>img. files (snd (main plain_ellipse empty_dir)) ''32x32.png'' = Some img \<and>
          width img = 32 \<and> height img = 32) \<and>
   (128, 128) \<in> set icon_sizes \<and>
   (\<exists>img. files (snd (main plain_ellipse empty_dir)) ''128x128.png'' = Some img \<and>
          width img = 128 \<and> height img = 128)"
  using main_writes_sized_icons[of plain_ellipse empty_dir]
  by (simp add: icon_sizes_def icon_filename_32 icon_filename_128)

text \<open>
  C2. The margin is 4. For a size \<open>(w, h)\<close> that the library accepts (both at least 8 and
  below \<open>2^31\<close>) the loop body makes exactly three library calls: it allocates a canvas
  whose every pixel is \<open>(0, 0, 0, 0)\<close>, draws one ellipse with bounding box
  \<open>[4, 4, w - 4, h - 4]\<close>, fill \<open>(70, 130, 180, 255)\<close> and outline \<open>(25, 25, 112, 255)\<close> on
  it, and saves the result: the pixels of the saved file are what the library's rasterizer
  gives for that box and those colours on the all-transparent canvas of that size. For
  any other size the body ends in an error and saves nothing. The loop does the same for
  every entry, in order.

  Both corners of the box belong to it. With a rasterizer that draws nothing outside the
  box and touches its four sides, the saved icon of an even size larger than 8 is
  \<open>(0, 0, 0, 0)\<close> wherever \<open>4 \<le> x \<le> w - 4\<close>, \<open>4 \<le> y \<le> h - 4\<close> fails, and has the outline
  colour in the middle of column 4, of column \<open>w - 4\<close>, of row 4 and of row \<open>h - 4\<close>.
\<close>

theorem icon_body_draws_one_ellipse:
  "margin = 4 \<and>
   (fst (icon_body ell (w, h) s) = None \<longleftrightarrow> 8 \<le> w \<and> w < 2 ^ 31 \<and> 8 \<le> h \<and> h < 2 ^ 31) \<and>
   (\<forall>canvas s1. Image_new ''RGBA'' (w, h) (0, 0, 0, 0) s = (Inr canvas, s1) \<longrightarrow>
      (\<forall>p. pixels canvas p = (0, 0, 0, 0))) \<and>
   (fst (icon_body ell (w, h) s) = None \<longrightarrow>
      calls (snd (icon_body ell (w, h) s)) =
        calls s @ [New (w, h) (0, 0, 0, 0),
                   Ellipse (4, 4, w - 4, h - 4) (70, 130, 180, 255) (25, 25, 112, 255),
                   Save (icon_filename w h)] \<and>
      (\<exists>img. files (snd (icon_body ell (w, h) s)) (icon_filename w h) = Some img \<and>
             mode img = ''RGBA'' \<and> width img = w \<and> height img = h \<and>
             pixels img =
               ell (4, 4, w - 4, h - 4) (70, 130, 180, 255) (25, 25, 112, 255) (w, h)
                 (\<lambda>p. (0, 0, 0, 0)))) \<and>
   (fst (icon_body ell (w, h) s) \<noteq> None \<longrightarrow>
      files (snd (icon_body ell (w, h) s)) = files s \<and>
      saved_names (calls (snd (icon_body ell (w, h) s))) = saved_names (calls s)) \<and>
   (fst (icon_loop ell sizes s) = None \<longrightarrow>
      calls (snd (icon_loop ell sizes s)) =
        calls s @ concat (map (\<lambda>(w, h).
          [New (w, h) (0, 0, 0, 0),
           Ellipse (4, 4, w - 4, h - 4) (70, 130, 180, 255) (25, 25, 112, 255),
           Save (icon_filename w h)]) sizes)) \<and>
   (draws_inside_box ell \<and> reaches_box_sides ell \<and>
    8 < w \<and> w < 2 ^ 31 \<and> even w \<and> 8 < h \<and> h < 2 ^ 31 \<and> even h \<longrightarrow>
      (\<exists>img. files (snd (icon_body ell (w, h) s)) (icon_filename w h) = Some img \<and>
         (\<forall>x y. \<not> (4 \<le> x \<and> x \<le> w - 4 \<and> 4 \<le> y \<and> y \<le> h - 4) \<longrightarrow>
                pixels img (x, y) = (0, 0, 0, 0)) \<and>
         pixels img (4, h div 2) = (25, 25, 112, 255) \<and>
         pixels img (w - 4, h div 2) = (25, 25, 112, 255) \<and>
         pixels img (w div 2, 4) = (25, 25, 112, 255) \<and>
         pixels img (w div 2, h - 4) = (25, 25, 112, 255)))"
proof -
  have bc: "body_calls = (\<lambda>(w, h).
       [New (w, h) (0, 0, 0, 0),
        Ellipse (4, 4, w - 4, h - 4) (70, 130, 180, 255) (25, 25, 112, 255),
        Save (icon_filename w h)])"
    by (rule ext) (simp add: body_calls_def margin_def split: prod.splits)
  have ok: "fst (icon_body ell (w, h) s) = None \<longleftrightarrow> 8 \<le> w \<and> w < 2 ^ 31 \<and> 8 \<le> h \<and> h < 2 ^ 31"
    by (simp add: icon_body_ok_iff size_ok_def margin_def)
  have canvas: "\<forall>canvas s1. Image_new ''RGBA'' (w, h) (0, 0, 0, 0) s = (Inr canvas, s1) \<longrightarrow>
      (\<forall>p. pixels canvas p = (0, 0, 0, 0))"
    by (auto simp: Image_new_def split: if_splits)
  have a: "fst (icon_body ell (w, h) s) = None \<longrightarrow>
      calls (snd (icon_body ell (w, h) s)) =
        calls s @ [New (w, h) (0, 0, 0, 0),
                   Ellipse (4, 4, w - 4, h - 4) (70, 130, 180, 255) (25, 25, 112, 255),
                   Save (icon_filename w h)] \<and>
      (\<exists>img. files (snd (icon_body ell (w, h) s)) (icon_filename w h) = Some img \<and>
             mode img = ''RGBA'' \<and> width img = w \<and> height img = h \<and>
             pixels img =
               ell (4, 4, w - 4, h - 4) (70, 130, 180, 255) (25, 25, 112, 255) (w, h)
                 (\<lambda>p. (0, 0, 0, 0)))"
  proof
    assume "fst (icon_body ell (w, h) s) = None"
    then have "size_ok (w, h)" by (simp add: icon_body_ok_iff)
    from icon_body_ok[OF this, of ell s]
    show "calls (snd (icon_body ell (w, h) s)) =
        calls s @ [New (w, h) (0, 0, 0, 0),
                   Ellipse (4, 4, w - 4, h - 4) (70, 130, 180, 255) (25, 25, 112, 255),
                   Save (icon_filename w h)] \<and>
      (\<exists>img. files (snd (icon_body ell (w, h) s)) (icon_filename w h) = Some img \<and>
             mode img = ''RGBA'' \<and> width img = w \<and> height img = h \<and>
             pixels img =
               ell (4, 4, w - 4, h - 4) (70, 130, 180, 255) (25, 25, 112, 255) (w, h)
                 (\<lambda>p. (0, 0, 0, 0)))"
      by (simp add: bc icon_image_def margin_def)
  qed
  have b: "fst (icon_body ell (w, h) s) \<noteq> None \<longrightarrow>
      files (snd (icon_body ell (w, h) s)) = files s \<and>
      saved_names (calls (snd (icon_body ell (w, h) s))) = saved_names (calls s)"
  proof
    assume "fst (icon_body ell (w, h) s) \<noteq> None"
    then have "\<not> size_ok (w, h)" by (simp add: icon_body_ok_iff)
    from icon_body_fails[OF this, of ell s]
    show "files (snd (icon_body ell (w, h) s)) = files s \<and>
      saved_names (calls (snd (icon_body ell (w, h) s))) = saved_names (calls s)"
      by (auto simp: saved_names_append)
  qed
  have c: "fst (icon_loop ell sizes s) = None \<longrightarrow>
      calls (snd (icon_loop ell sizes s)) =
        calls s @ concat (map (\<lambda>(w, h).
          [New (w, h) (0, 0, 0, 0),
           Ellipse (4, 4, w - 4, h - 4) (70, 130, 180, 255) (25, 25, 112, 255),
           Save (icon_filename w h)]) sizes)"
    using icon_loop_calls[of sizes ell s] by (simp add: icon_loop_ok_iff bc)
  have d: "draws_inside_box ell \<and> reaches_box_sides ell \<and>
    8 < w \<and> w < 2 ^ 31 \<and> even w \<and> 8 < h \<and> h < 2 ^ 31 \<and> even h \<longrightarrow>
      (\<exists>img. files (snd (icon_body ell (w, h) s)) (icon_filename w h) = Some img \<and>
         (\<forall>x y. \<not> (4 \<le> x \<and> x \<le> w - 4 \<and> 4 \<le> y \<and> y \<le> h - 4) \<longrightarrow>
                pixels img (x, y) = (0, 0, 0, 0)) \<and>
         pixels img (4, h div 2) = (25, 25, 112, 255) \<and>
         pixels img (w - 4, h div 2) = (25, 25, 112, 255) \<and>
         pixels img (w div 2, 4) = (25, 25, 112, 255) \<and>
         pixels img (w div 2, h - 4) = (25, 25, 112, 255))"
  proof
    assume h: "draws_inside_box ell \<and> reaches_box_sides ell \<and>
      8 < w \<and> w < 2 ^ 31 \<and> even w \<and> 8 < h \<and> h < 2 ^ 31 \<and> even h"
    then have sok: "size_ok (w, h)" by (simp add: size_ok_def margin_def)
    from h have room: "2 * margin < w" "2 * margin < h" by (simp_all add: margin_def)
    have out: "\<forall>x y. \<not> (4 \<le> x \<and> x \<le> w - 4 \<and> 4 \<le> y \<and> y \<le> h - 4) \<longrightarrow>
                pixels (icon_image ell w h) (x, y) = (0, 0, 0, 0)"
    proof (intro allI impI)
      fix x y
      assume "\<not> (4 \<le> x \<and> x \<le> w - 4 \<and> 4 \<le> y \<and> y \<le> h - 4)"
      then have "\<not> in_box (margin, margin, w - margin, h - margin) (x, y)"
        by (simp add: in_box_def margin_def)
      with h show "pixels (icon_image ell w h) (x, y) = (0, 0, 0, 0)"
        by (simp add: icon_image_outside)
    qed
    from h room have sides:
      "pixels (icon_image ell w h) (4, h div 2) = (25, 25, 112, 255)"
      "pixels (icon_image ell w h) (w - 4, h div 2) = (25, 25, 112, 255)"
      "pixels (icon_image ell w h) (w div 2, 4) = (25, 25, 112, 255)"
      "pixels (icon_image ell w h) (w div 2, h - 4) = (25, 25, 112, 255)"
      using icon_image_sides[of ell w h] by (simp_all add: margin_def)
    from out sides show "\<exists>img. files (snd (icon_body ell (w, h) s)) (icon_filename w h) = Some img \<and>
         (\<forall>x y. \<not> (4 \<le> x \<and> x \<le> w - 4 \<and> 4 \<le> y \<and> y \<le> h - 4) \<longrightarrow>
                pixels img (x, y) = (0, 0, 0, 0)) \<and>
         pixels img (4, h div 2) = (25, 25, 112, 255) \<and>
         pixels img (w - 4, h div 2) = (25, 25, 112, 255) \<and>
         pixels img (w div 2, 4) = (25, 25, 112, 255) \<and>
         pixels img (w div 2, h - 4) = (25, 25, 112, 255)"
      by (simp add: icon_body_ok[OF sok])
  qed
  have m: "margin = 4" by (simp add: margin_def)
  from m ok canvas a b c d show ?thesis by blast
qed

theorem icon_body_draws_one_ellipse_witness:
  "draws_inside_box plain_ellipse \<and> reaches_box_sides plain_ellipse \<and>
   (8 :: int) < 32 \<and> (32 :: int) < 2 ^ 31 \<and> even (32 :: int) \<and>
   fst (icon_body plain_ellipse (32, 32) (start empty_dir)) = None \<and>
   calls (snd (icon_body plain_ellipse (32, 32) (start empty_dir))) =
     [New (32, 32) (0, 0, 0, 0),
      Ellipse (4, 4, 28, 28) (70, 130, 180, 255) (25, 25, 112, 255),
      Save ''32x32.png''] \<and>
   (\<exists>img. files (snd (icon_body plain_ellipse (32, 32) (start empty_dir))) ''32x32.png'' = Some img \<and>
          pixels img = plain_ellipse (4, 4, 28, 28) (70, 130, 180, 255) (25, 25, 112, 255) (32, 32)
                         (\<lambda>p. (0, 0, 0, 0)) \<and>
          pixels img (16, 16) = (70, 130, 180, 255) \<and>
          pixels img (29, 16) = (0, 0, 0, 0) \<and>
          pixels img (28, 16) = (25, 25, 112, 255) \<and>
          pixels img (4, 16) = (25, 25, 112, 255) \<and>
          pixels img (16, 28) = (25, 25, 112, 255))"
proof -
  let ?s = "start empty_dir"
  note T = icon_body_draws_one_ellipse[of plain_ellipse 32 32 ?s "[]", THEN conjunct2]
  from T have ok: "fst (icon_body plain_ellipse (32, 32) ?s) = None"
    by simp
  from T ok have cs: "calls (snd (icon_body plain_ellipse (32, 32) ?s)) =
     [New (32, 32) (0, 0, 0, 0),
      Ellipse (4, 4, 28, 28) (70, 130, 180, 255) (25, 25, 112, 255),
      Save ''32x32.png'']"
    by (simp add: icon_filename_32 start_def)
  from T ok obtain img where img:
    "files (snd (icon_body plain_ellipse (32, 32) ?s)) ''32x32.png'' = Some img"
    "pixels img = plain_ellipse (4, 4, 28, 28) (70, 130, 180, 255) (25, 25, 112, 255) (32, 32)
                    (\<lambda>p. (0, 0, 0, 0))"
    by (auto simp: icon_filename_32)
  from T plain_ellipse_inside plain_ellipse_sides obtain img' where img':
    "files (snd (icon_body plain_ellipse (32, 32) ?s)) ''32x32.png'' = Some img'"
    "\<forall>x y. \<not> (4 \<le> x \<and> x \<le> 32 - 4 \<and> 4 \<le> y \<and> y \<le> 32 - 4) \<longrightarrow> pixels img' (x, y) = (0, 0, 0, 0)"
    "pixels img' (4, 32 div 2) = (25, 25, 112, 255)"
    "pixels img' (32 - 4, 32 div 2) = (25, 25, 112, 255)"
    "pixels img' (32 div 2, 32 - 4) = (25, 25, 112, 255)"
    by (auto simp: icon_filename_32)
  from img(1) img'(1) have same: "img' = img" by simp
  from img'(2) have out: "pixels img (29, 16) = (0, 0, 0, 0)"
    unfolding same by simp
  from img'(3-5) have sides: "pixels img (4, 16) = (25, 25, 112, 255)"
    "pixels img (28, 16) = (25, 25, 112, 255)" "pixels img (16, 28) = (25, 25, 112, 255)"
    unfolding same by simp_all
  have c: "pixels img (16, 16) = (70, 130, 180, 255)"
    by (simp add: img(2) plain_ellipse_def covered_def in_box_def)
  from img out sides c have "\<exists>img. files (snd (icon_body plain_ellipse (32, 32) ?s)) ''32x32.png'' = Some img \<and>
          pixels img = plain_ellipse (4, 4, 28, 28) (70, 130, 180, 255) (25, 25, 112, 255) (32, 32)
                         (\<lambda>p. (0, 0, 0, 0)) \<and>
          pixels img (16, 16) = (70, 130, 180, 255) \<and>
          pixels img (29, 16) = (0, 0, 0, 0) \<and>
          pixels img (28, 16) = (25, 25, 112, 255) \<and>
          pixels img (4, 16) = (25, 25, 112, 255) \<and>
          pixels img (16, 28) = (25, 25, 112, 255)"
    by blast
  with ok cs plain_ellipse_inside plain_ellipse_sides show ?thesis by simp
qed

text \<open>
  C3. After the reference run, \<open>128x128@2x.png\<close> exists and holds the very image that
  \<open>128x128.png\<close> holds, of size 128 by 128, so both decode to the same width, height and
  pixels. The copy is taken from the file on disk: for any list of sizes and any starting
  state, a run that succeeds leaves in \<open>128x128@2x.png\<close> the image that the file
  \<open>128x128.png\<close> held when the loop had finished, whatever the loop drew last.
\<close>

theorem duplicate_copies_file_on_disk:
  "fst (main ell dir) = None \<and>
   (\<exists>img. files (snd (main ell dir)) ''128x128@2x.png'' = Some img \<and>
          files (snd (main ell dir)) ''128x128.png'' = Some img \<and>
          width img = 128 \<and> height img = 128 \<and>
          (\<forall>p. getpixel img p = getpixel (icon_image ell 128 128) p)) \<and>
   (fst (create_icons ell sizes s) = None \<longrightarrow>
      (\<exists>img. files (snd (icon_loop ell sizes s)) ''128x128.png'' = Some img \<and>
             files (snd (create_icons ell sizes s)) ''128x128.png'' = Some img \<and>
             files (snd (create_icons ell sizes s)) ''128x128@2x.png'' = Some img))"
proof -
  have a: "\<exists>img. files (snd (main ell dir)) ''128x128@2x.png'' = Some img \<and>
          files (snd (main ell dir)) ''128x128.png'' = Some img \<and>
          width img = 128 \<and> height img = 128 \<and>
          (\<forall>p. getpixel img p = getpixel (icon_image ell 128 128) p)"
    by (simp add: main_files icon_image_size)
  have b: "fst (create_icons ell sizes s) = None \<longrightarrow>
      (\<exists>img. files (snd (icon_loop ell sizes s)) ''128x128.png'' = Some img \<and>
             files (snd (create_icons ell sizes s)) ''128x128.png'' = Some img \<and>
             files (snd (create_icons ell sizes s)) ''128x128@2x.png'' = Some img)"
  proof
    assume "fst (create_icons ell sizes s) = None"
    then obtain img where ok: "fst (icon_loop ell sizes s) = None"
      and img: "files (snd (icon_loop ell sizes s)) ''128x128.png'' = Some img"
      by (auto simp: create_icons_ok_iff)
    from create_icons_found(2)[OF ok img] img
    show "\<exists>img. files (snd (icon_loop ell sizes s)) ''128x128.png'' = Some img \<and>
             files (snd (create_icons ell sizes s)) ''128x128.png'' = Some img \<and>
             files (snd (create_icons ell sizes s)) ''128x128@2x.png'' = Some img"
      by simp
  qed
  from a b main_ok[of ell dir] show ?thesis by (simp only: simp_thms)
qed

theorem duplicate_copies_file_on_disk_witness:
  "fst (create_icons plain_ellipse [(32, 32)] (start stale_dir)) = None \<and>
   files (snd (create_icons plain_ellipse [(32, 32)] (start stale_dir))) ''128x128@2x.png''
     = Some stale_image \<and>
   files (snd (create_icons plain_ellipse [(32, 32)] (start stale_dir))) ''128x128.png''
     = Some stale_image"
  using duplicate_copies_file_on_disk[of plain_ellipse empty_dir "[(32, 32)]" "start stale_dir"]
    stale_run_ok
  by (simp add: stale_loop)

text \<open>
  C4, as amended. Take a list of sizes with no entry \<open>(128, 128)\<close>, every pass of the loop
  over which succeeds, and a working directory that holds no file \<open>128x128.png\<close> when the
  run starts. Then the run ends with the file-not-found error of the copying step;
  \<open>128x128@2x.png\<close> is not written (the name holds what it held before); nothing is
  printed; and every file \<open>{w}x{h}.png\<close> of the list stays written, with its dimensions.

  As stated, for any list without \<open>(128, 128)\<close>, the claim fails in two ways. The copying
  step opens whatever file of that name is in the directory: started where a
  \<open>128x128.png\<close> already lies, the list \<open>[(32, 32)]\<close> gives a successful run that writes
  \<open>128x128@2x.png\<close> and prints the confirmation. And the run can end before the copying
  step: for the list \<open>[(4, 4)]\<close> the box is \<open>[4, 4, 0, 0]\<close>, the drawing call refuses it,
  and the run ends there with that error and without having written \<open>4x4.png\<close>.
\<close>

theorem missing_entry_fails:
  assumes "(128, 128) \<notin> set sizes"
    and "fst (icon_loop ell sizes (start dir)) = None"
    and "dir ''128x128.png'' = None"
  shows "fst (run_with ell sizes dir) = Some (FileNotFoundError ''128x128.png'') \<and>
         ''128x128@2x.png'' \<notin> set (saved_names (calls (snd (run_with ell sizes dir)))) \<and>
         files (snd (run_with ell sizes dir)) ''128x128@2x.png'' = dir ''128x128@2x.png'' \<and>
         stdout (snd (run_with ell sizes dir)) = [] \<and>
         (\<forall>t. Print t \<notin> set (calls (snd (run_with ell sizes dir)))) \<and>
         (\<forall>(w, h) \<in> set sizes.
            \<exists>img. files (snd (run_with ell sizes dir)) (icon_filename w h) = Some img \<and>
                  width img = w \<and> height img = h)"
proof -
  from assms(2) have all: "list_all size_ok sizes" by (simp add: icon_loop_ok_iff)
  have none: "files (snd (icon_loop ell sizes (start dir))) ''128x128.png'' = None"
    using loop_keeps_128[OF assms(1), of ell "start dir"] assms(3) by (simp add: start_def)
  have cs: "calls (snd (run_with ell sizes dir)) = concat (map body_calls sizes) @ [Open ''128x128.png'']"
    by (simp add: run_with_def create_icons_missing(4)[OF assms(2) none] icon_loop_calls[OF all])
       (simp add: start_def)
  have a: "fst (run_with ell sizes dir) = Some (FileNotFoundError ''128x128.png'')"
    by (simp add: run_with_def create_icons_missing(1)[OF assms(2) none])
  have b: "''128x128@2x.png'' \<notin> set (saved_names (calls (snd (run_with ell sizes dir))))"
    using names_not_2x[of "set sizes"] by (simp add: cs saved_names_append saved_names_loop)
  have c: "files (snd (run_with ell sizes dir)) ''128x128@2x.png'' = dir ''128x128@2x.png''"
    by (simp add: run_with_def create_icons_missing(2)[OF assms(2) none] loop_keeps_2x)
       (simp add: start_def)
  have d: "stdout (snd (run_with ell sizes dir)) = []"
    by (simp add: run_with_def create_icons_missing(3)[OF assms(2) none]) (simp add: start_def)
  have e: "\<forall>t. Print t \<notin> set (calls (snd (run_with ell sizes dir)))"
    by (auto simp: cs body_calls_def)
  have f: "\<forall>(w, h) \<in> set sizes.
            \<exists>img. files (snd (run_with ell sizes dir)) (icon_filename w h) = Some img \<and>
                  width img = w \<and> height img = h"
    using run_with_files_entry[of _ _ sizes ell dir]
    by (auto simp: icon_image_size takeWhile_all[OF all])
  from a b c d e f show ?thesis by (simp only: simp_thms)
qed

theorem missing_entry_fails_witness:
  "(128, 128) \<notin> set [(32, 32) :: int \<times> int] \<and>
   fst (icon_loop plain_ellipse [(32, 32)] (start empty_dir)) = None \<and>
   empty_dir ''128x128.png'' = None \<and>
   fst (run_with plain_ellipse [(32, 32)] empty_dir) = Some (FileNotFoundError ''128x128.png'') \<and>
   files (snd (run_with plain_ellipse [(32, 32)] empty_dir)) ''128x128@2x.png'' = None \<and>
   stdout (snd (run_with plain_ellipse [(32, 32)] empty_dir)) = [] \<and>
   (\<exists>img. files (snd (run_with plain_ellipse [(32, 32)] empty_dir)) ''32x32.png'' = Some img \<and>
          width img = 32 \<and> height img = 32)"
proof -
  have ok: "fst (icon_loop plain_ellipse [(32, 32)] (start empty_dir)) = None"
    by (simp add: icon_loop_ok_iff size_ok_def margin_def)
  from missing_entry_fails[of "[(32, 32)]" plain_ellipse empty_dir] ok
  show ?thesis by (simp add: empty_dir_def icon_filename_32)
qed

theorem missing_entry_counterexample:
  "(128, 128) \<notin> set [(32, 32) :: int \<times> int] \<and>
   fst (run_with plain_ellipse [(32, 32)] stale_dir) = None \<and>
   files (snd (run_with plain_ellipse [(32, 32)] stale_dir)) ''128x128@2x.png'' = Some stale_image \<and>
   stdout (snd (run_with plain_ellipse [(32, 32)] stale_dir)) = ''Created placeholder icons'' @ [CHR 0x0A] \<and>
   (128, 128) \<notin> set [(4, 4) :: int \<times> int] \<and>
   fst (run_with plain_ellipse [(4, 4)] empty_dir) = Some ValueError \<and>
   files (snd (run_with plain_ellipse [(4, 4)] empty_dir)) ''4x4.png'' = None \<and>
   saved_names (calls (snd (run_with plain_ellipse [(4, 4)] empty_dir))) = []"
proof -
  have a: "fst (run_with plain_ellipse [(32, 32)] stale_dir) = None"
    "files (snd (run_with plain_ellipse [(32, 32)] stale_dir)) ''128x128@2x.png'' = Some stale_image"
    "stdout (snd (run_with plain_ellipse [(32, 32)] stale_dir)) = ''Created placeholder icons'' @ [CHR 0x0A]"
    by (simp_all add: run_with_def create_icons_found(1,2,3)[OF stale_loop]) (simp add: start_def)
  have body: "icon_body plain_ellipse (4, 4) (start empty_dir) =
      (Some ValueError,
       (start empty_dir)\<lparr>calls := [New (4, 4) (0, 0, 0, 0),
          Ellipse (4, 4, 0, 0) (70, 130, 180, 255) (25, 25, 112, 255)]\<rparr>)"
    by (simp add: icon_body_def Image_new_def draw_ellipse_def note_call_def margin_def start_def)
  have bad: "\<not> size_ok (4, 4)" by (simp add: size_ok_def margin_def)
  have loop: "icon_loop plain_ellipse [(4, 4)] (start empty_dir) =
      (Some ValueError,
       (start empty_dir)\<lparr>calls := [New (4, 4) (0, 0, 0, 0),
          Ellipse (4, 4, 0, 0) (70, 130, 180, 255) (25, 25, 112, 255)]\<rparr>)"
    by (simp add: icon_loop_Cons_fails[OF bad] body)
  have run: "run_with plain_ellipse [(4, 4)] empty_dir =
      (Some ValueError,
       (start empty_dir)\<lparr>calls := [New (4, 4) (0, 0, 0, 0),
          Ellipse (4, 4, 0, 0) (70, 130, 180, 255) (25, 25, 112, 255)]\<rparr>)"
    by (simp add: run_with_def create_icons_def loop)
  show ?thesis by (simp add: a run) (simp add: start_def empty_dir_def)
qed

text \<open>
  C5. With a rasterizer that leaves the pixels outside the bounding box as they were, every
  icon of the list that the run writes and whose size leaves room for the margin has alpha
  0 at its four corners \<open>(0, 0)\<close>, \<open>(w - 1, 0)\<close>, \<open>(0, h - 1)\<close> and \<open>(w - 1, h - 1)\<close>: the
  canvas starts transparent and the margin of 4 keeps the box away from each corner.
\<close>

theorem corners_transparent:
  assumes "draws_inside_box ell"
    and "(w, h) \<in> set sizes"
    and "2 * margin < w" and "2 * margin < h"
    and "icon_filename w h \<in> set (saved_names (calls (snd (run_with ell sizes dir))))"
  shows "\<exists>img. files (snd (run_with ell sizes dir)) (icon_filename w h) = Some img \<and>
           map_option alpha (getpixel img (0, 0)) = Some 0 \<and>
           map_option alpha (getpixel img (w - 1, 0)) = Some 0 \<and>
           map_option alpha (getpixel img (0, h - 1)) = Some 0 \<and>
           map_option alpha (getpixel img (w - 1, h - 1)) = Some 0"
proof -
  have out: "\<not> in_box (margin, margin, w - margin, h - margin) (0, 0)"
    "\<not> in_box (margin, margin, w - margin, h - margin) (w - 1, 0)"
    "\<not> in_box (margin, margin, w - margin, h - margin) (0, h - 1)"
    "\<not> in_box (margin, margin, w - margin, h - margin) (w - 1, h - 1)"
    by (simp_all add: in_box_def margin_def)
  from assms(3,4) have pos: "0 < w" "0 < h" by (simp_all add: margin_def)
  have px: "map_option alpha (getpixel (icon_image ell w h) (0, 0)) = Some 0"
    "map_option alpha (getpixel (icon_image ell w h) (w - 1, 0)) = Some 0"
    "map_option alpha (getpixel (icon_image ell w h) (0, h - 1)) = Some 0"
    "map_option alpha (getpixel (icon_image ell w h) (w - 1, h - 1)) = Some 0"
    using pos out[THEN icon_image_outside[OF assms(1)]]
    by (simp_all add: getpixel_def icon_image_size alpha_def)
  from assms(5) have "icon_filename w h \<in> (\<lambda>(w, h). icon_filename w h) ` set (takeWhile size_ok sizes)"
    using icon_filename_not_2x[of w h] by (auto simp: run_with_saved_names split: if_splits)
  then obtain w' h' where "(w', h') \<in> set (takeWhile size_ok sizes)"
    "icon_filename w h = icon_filename w' h'"
    by auto
  with icon_filename_inj[of w h w' h'] have "(w, h) \<in> set (takeWhile size_ok sizes)"
    by simp
  from run_with_files_entry[OF this, of ell dir] px show ?thesis by simp
qed

theorem corners_transparent_witness:
  "draws_inside_box plain_ellipse \<and> (32, 32) \<in> set icon_sizes \<and> 2 * margin < 32 \<and>
   ''32x32.png'' \<in> set (saved_names (calls (snd (run_with plain_ellipse icon_sizes empty_dir)))) \<and>
   (\<exists>img. files (snd (run_with plain_ellipse icon_sizes empty_dir)) ''32x32.png'' = Some img \<and>
           map_option alpha (getpixel img (0, 0)) = Some 0 \<and>
           map_option alpha (getpixel img (31, 0)) = Some 0 \<and>
           map_option alpha (getpixel img (0, 31)) = Some 0 \<and>
           map_option alpha (getpixel img (31, 31)) = Some 0)"
proof -
  have saved: "''32x32.png'' \<in> set (saved_names (calls (snd (run_with plain_ellipse icon_sizes empty_dir))))"
    using main_calls[of plain_ellipse empty_dir] by (simp add: main_def)
  from corners_transparent[of plain_ellipse 32 32 icon_sizes empty_dir] plain_ellipse_inside saved
  show ?thesis by (simp add: icon_sizes_def margin_def icon_filename_32)
qed

text \<open>
  C7, as amended. For a list of \<open>N\<close> pairwise distinct sizes that includes
  \<open>(128, 128)\<close>, a successful run writes exactly \<open>N + 1\<close> distinct files: one
  \<open>{w}x{h}.png\<close> per entry and \<open>128x128@2x.png\<close>; every other name of the directory
  holds what it held before. In the reference configuration these are the three files
  \<open>32x32.png\<close>, \<open>128x128.png\<close> and \<open>128x128@2x.png\<close>.

  As stated, for any list with exactly one \<open>(128, 128)\<close>, the claim fails when another
  entry repeats: the second pass overwrites the file of the first, and the list
  \<open>[(32, 32), (32, 32), (128, 128)]\<close> of length 3 leaves 3 files, not 4.
\<close>

theorem writes_one_file_per_entry_and_the_copy:
  assumes "distinct sizes"
    and "(128, 128) \<in> set sizes"
    and "fst (run_with ell sizes dir) = None"
  shows "distinct (saved_names (calls (snd (run_with ell sizes dir)))) \<and>
         card (set (saved_names (calls (snd (run_with ell sizes dir))))) = length sizes + 1 \<and>
         set (saved_names (calls (snd (run_with ell sizes dir)))) =
           (\<lambda>(w, h). icon_filename w h) ` set sizes \<union> {''128x128@2x.png''} \<and>
         (\<forall>n. n \<in> set (saved_names (calls (snd (run_with ell sizes dir)))) \<or>
              files (snd (run_with ell sizes dir)) n = dir n)"
proof -
  let ?names = "saved_names (calls (snd (run_with ell sizes dir)))"
  from assms(3) have all: "list_all size_ok sizes" by (simp add: run_with_ok_iff)
  have names: "?names = map (\<lambda>(w, h). icon_filename w h) sizes @ [''128x128@2x.png'']"
    using assms(3) by (simp add: run_with_saved_names takeWhile_all[OF all])
  have d: "distinct ?names"
    using assms(1) names_not_2x[of "set sizes"]
    by (simp add: names distinct_map icon_filename_inj_on)
  have "length ?names = length sizes + 1"
    by (simp add: names)
  with distinct_card[OF d] have c: "card (set ?names) = length sizes + 1"
    by simp
  have s: "set ?names = (\<lambda>(w, h). icon_filename w h) ` set sizes \<union> {''128x128@2x.png''}"
    by (simp add: names)
  have o: "\<forall>n. n \<in> set ?names \<or> files (snd (run_with ell sizes dir)) n = dir n"
    using run_with_files_other[OF assms(3)] by blast
  from d c s o show ?thesis by (simp only: simp_thms)
qed

theorem writes_one_file_per_entry_and_the_copy_witness:
  "distinct icon_sizes \<and> (128, 128) \<in> set icon_sizes \<and>
   fst (run_with plain_ellipse icon_sizes empty_dir) = None \<and>
   length icon_sizes + 1 = 3 \<and>
   card (set (saved_names (calls (snd (run_with plain_ellipse icon_sizes empty_dir))))) = 3 \<and>
   set (saved_names (calls (snd (run_with plain_ellipse icon_sizes empty_dir)))) =
     {''32x32.png'', ''128x128.png'', ''128x128@2x.png''}"
  using writes_one_file_per_entry_and_the_copy[of icon_sizes plain_ellipse empty_dir]
    main_ok[of plain_ellipse empty_dir]
  by (simp add: main_def) (auto simp: icon_sizes_def icon_filename_32 icon_filename_128)

theorem file_count_counterexample:
  "length [(32, 32), (32, 32), (128, 128) :: int \<times> int] = 3 \<and>
   count_list [(32, 32), (32, 32), (128, 128) :: int \<times> int] (128, 128) = 1 \<and>
   fst (run_with plain_ellipse [(32, 32), (32, 32), (128, 128)] empty_dir) = None \<and>
   saved_names (calls (snd (run_with plain_ellipse [(32, 32), (32, 32), (128, 128)] empty_dir))) =
     [''32x32.png'', ''32x32.png'', ''128x128.png'', ''128x128@2x.png''] \<and>
   card (set (saved_names (calls (snd (run_with plain_ellipse [(32, 32), (32, 32), (128, 128)] empty_dir)))))
     = 3 \<and>
   card (set (saved_names (calls (snd (run_with plain_ellipse [(32, 32), (32, 32), (128, 128)] empty_dir)))))
     \<noteq> length [(32, 32), (32, 32), (128, 128) :: int \<times> int] + 1"
proof -
  have all: "list_all size_ok [(32, 32), (32, 32), (128, 128)]"
    by (simp add: size_ok_def margin_def)
  have "(128, 128) \<in> set (takeWhile size_ok [(32, 32), (32, 32), (128, 128)])"
    unfolding takeWhile_all[OF all] by simp
  from icon_loop_files_entry[OF this, of plain_ellipse "start empty_dir"]
  have "files (snd (icon_loop plain_ellipse [(32, 32), (32, 32), (128, 128)] (start empty_dir)))
          ''128x128.png'' \<noteq> None"
    by (simp add: icon_filename_128)
  with all have ok: "fst (run_with plain_ellipse [(32, 32), (32, 32), (128, 128)] empty_dir) = None"
    by (simp add: run_with_ok_iff)
  have names: "saved_names (calls (snd (run_with plain_ellipse [(32, 32), (32, 32), (128, 128)] empty_dir))) =
     [''32x32.png'', ''32x32.png'', ''128x128.png'', ''128x128@2x.png'']"
    unfolding run_with_saved_names takeWhile_all[OF all]
    by (simp add: ok icon_filename_32 icon_filename_128)
  show ?thesis by (simp add: ok names)
qed

text \<open>
  C8. Running the script a second time, in the directory the first run left, succeeds and
  leaves every file as the first run left it: the same three files are written again, each
  with the same image, hence with the same dimensions and the same pixels.
\<close>

theorem second_run_changes_nothing:
  "fst (main ell dir) = None \<and>
   fst (main ell (files (snd (main ell dir)))) = None \<and>
   files (snd (main ell (files (snd (main ell dir))))) = files (snd (main ell dir)) \<and>
   saved_names (calls (snd (main ell dir))) = [''32x32.png'', ''128x128.png'', ''128x128@2x.png''] \<and>
   saved_names (calls (snd (main ell (files (snd (main ell dir)))))) =
     [''32x32.png'', ''128x128.png'', ''128x128@2x.png'']"
  by (simp add: main_ok main_calls) (simp add: main_files)

text \<open>
  C10. A successful run started with nothing printed leaves on standard output exactly the
  line \<open>Created placeholder icons\<close> followed by a newline. The print is the last call
  of the run, directly after the copy has been saved, and no call before it prints.
\<close>

theorem prints_confirmation_once:
  "fst (main ell dir) = None \<and>
   stdout (snd (main ell dir)) = ''Created placeholder icons'' @ [CHR 0x0A] \<and>
   (fst (run_with ell sizes dir) = None \<longrightarrow>
      stdout (snd (run_with ell sizes dir)) = ''Created placeholder icons'' @ [CHR 0x0A] \<and>
      (\<exists>before. calls (snd (run_with ell sizes dir)) =
           before @ [Open ''128x128.png'', Save ''128x128@2x.png'',
                     Print ''Created placeholder icons''] \<and>
         (\<forall>t. Print t \<notin> set before)))"
proof -
  have "fst (run_with ell sizes dir) = None \<longrightarrow>
      stdout (snd (run_with ell sizes dir)) = ''Created placeholder icons'' @ [CHR 0x0A] \<and>
      (\<exists>before. calls (snd (run_with ell sizes dir)) =
           before @ [Open ''128x128.png'', Save ''128x128@2x.png'',
                     Print ''Created placeholder icons''] \<and>
         (\<forall>t. Print t \<notin> set before))"
  proof
    assume "fst (run_with ell sizes dir) = None"
    then obtain img where ok: "fst (icon_loop ell sizes (start dir)) = None"
      and img: "files (snd (icon_loop ell sizes (start dir))) ''128x128.png'' = Some img"
      by (auto simp: run_with_def create_icons_ok_iff)
    from icon_loop_shape[of ell sizes "start dir"] obtain cs where
      cs: "calls (snd (icon_loop ell sizes (start dir))) = cs" "\<forall>t. Print t \<notin> set cs"
      by (auto simp: start_def)
    have "calls (snd (run_with ell sizes dir)) =
           cs @ [Open ''128x128.png'', Save ''128x128@2x.png'',
                     Print ''Created placeholder icons'']"
      by (simp add: run_with_def create_icons_found(4)[OF ok img] cs(1))
    with cs(2) have "\<exists>before. calls (snd (run_with ell sizes dir)) =
           before @ [Open ''128x128.png'', Save ''128x128@2x.png'',
                     Print ''Created placeholder icons''] \<and>
         (\<forall>t. Print t \<notin> set before)" by blast
    moreover have "stdout (snd (run_with ell sizes dir)) = ''Created placeholder icons'' @ [CHR 0x0A]"
      by (simp add: run_with_def create_icons_found(3)[OF ok img]) (simp add: start_def)
    ultimately show "stdout (snd (run_with ell sizes dir)) = ''Created placeholder icons'' @ [CHR 0x0A] \<and>
      (\<exists>before. calls (snd (run_with ell sizes dir)) =
           before @ [Open ''128x128.png'', Save ''128x128@2x.png'',
                     Print ''Created placeholder icons''] \<and>
         (\<forall>t. Print t \<notin> set before))" by simp
  qed
  with main_ok[of ell dir] main_stdout[of ell dir] show ?thesis by (simp only: simp_thms)
qed

theorem prints_confirmation_once_witness:
  "fst (run_with plain_ellipse icon_sizes empty_dir) = None \<and>
   stdout (snd (run_with plain_ellipse icon_sizes empty_dir)) =
     ''Created placeholder icons'' @ [CHR 0x0A]"
  using prints_confirmation_once[of plain_ellipse empty_dir icon_sizes] main_ok[of plain_ellipse empty_dir]
  by (simp add: main_def)

end
